theory Spec2Isabelle
  imports Main "HOL-Library.Word" "HOL-Library.Sublist"
begin

section \<open>JavaScript strings\<close>

text \<open>
  A JavaScript string is a sequence of 16-bit code units. Literals of the source are
  written as HOL strings and mapped code unit by code unit; the accented letters of the
  Spanish messages are below U+0100, so one character is one code unit
  (\<open>0xE1\<close> a-acute, \<open>0xE9\<close> e-acute, \<open>0xF3\<close> o-acute).
\<close>

type_synonym jschar = "16 word"
type_synonym jsstring = "jschar list"

definition lit :: "string \<Rightarrow> jsstring" where
  "lit cs = map of_char cs"

text \<open>
  \<open>String.prototype.trim\<close> strips the code units of WhiteSpace and LineTerminator
  from both ends.
\<close>

definition isWhiteSpace :: "jschar \<Rightarrow> bool" where
  "isWhiteSpace c =
     (c = 0x0009 \<or> c = 0x000A \<or> c = 0x000B \<or> c = 0x000C \<or> c = 0x000D \<or> c = 0x0020
      \<or> c = 0x00A0 \<or> c = 0x1680 \<or> (0x2000 \<le> c \<and> c \<le> 0x200A)
      \<or> c = 0x2028 \<or> c = 0x2029 \<or> c = 0x202F \<or> c = 0x205F \<or> c = 0x3000 \<or> c = 0xFEFF)"

definition trim :: "jsstring \<Rightarrow> jsstring" where
  "trim s = rev (dropWhile isWhiteSpace (rev (dropWhile isWhiteSpace s)))"

text \<open>\<open>Array.prototype.join\<close> on an array of strings.\<close>

fun join :: "jsstring \<Rightarrow> jsstring list \<Rightarrow> jsstring" where
  "join sep [] = []"
| "join sep [x] = x"
| "join sep (x # y # ys) = x @ sep @ join sep (y # ys)"


section \<open>Data model (types.ts and the state of the App component)\<close>

datatype MessageSender = USER | BOT

record ChatMessage =
  sender :: MessageSender
  "text" :: jsstring

text \<open>
  The chat session handle of the hosted service, as far as the component determines it:
  the model name and the seed history it is created with.
\<close>

record Content =
  role :: jsstring
  parts :: "jsstring list"

record Chat =
  model :: jsstring
  history :: "Content list"

text \<open>The seven \<open>useState\<close> cells of \<open>App\<close>.\<close>

record app_state =
  pdfName :: "jsstring option"
  isProcessing :: bool
  messages :: "ChatMessage list"
  error :: "jsstring option"
  chat :: "Chat option"
  userInput :: jsstring
  isBotReplying :: bool

definition initialState :: app_state where
  "initialState =
     \<lparr>pdfName = None, isProcessing = False, messages = [], error = None,
      chat = None, userInput = [], isBotReplying = False\<rparr>"

text \<open>
  \<open>resetState\<close> calls all seven setters with constants; inside one synchronous
  handler the calls are committed together.
\<close>

definition resetState :: "app_state \<Rightarrow> app_state" where
  "resetState s =
     s\<lparr>pdfName := None, isProcessing := False, messages := [], error := None,
       chat := None, userInput := [], isBotReplying := False\<rparr>"


section \<open>The fixed texts\<close>

definition invalidFileMessage :: jsstring where
  "invalidFileMessage =
     lit (''Por favor, selecciona un archivo PDF v'' @ [CHR 0xE1] @ ''lido.'')"

definition readFailureMessage :: jsstring where
  "readFailureMessage = lit ''No se pudo leer el archivo.''"

definition processingFailureMessage :: jsstring where
  "processingFailureMessage =
     lit (''Ocurri'' @ [CHR 0xF3] @ '' un error al procesar el PDF. Int'' @ [CHR 0xE9]
          @ ''ntalo de nuevo.'')"

definition initialBotMessage :: jsstring where
  "initialBotMessage =
     lit ''Documento analizado. Ya puedes hacer preguntas sobre su contenido.''"

definition communicationFailureMessage :: jsstring where
  "communicationFailureMessage =
     lit (''Lo siento, un error de comunicaci'' @ [CHR 0xF3] @ ''n me impidi'' @ [CHR 0xF3]
          @ '' responder.'')"

definition promptPrefix :: jsstring where
  "promptPrefix =
     lit (''Bas'' @ [CHR 0xE1] @ ''ndote EXCLUSIVAMENTE en el siguiente texto, ''
          @ ''responde a las preguntas del usuario. No uses conocimiento externo. ''
          @ ''El texto es:'' @ [CHR 0x0A, CHR 0x0A] @ ''---'' @ [CHR 0x0A, CHR 0x0A])"

definition pdfMediaType :: jsstring where
  "pdfMediaType = lit ''application/pdf''"

definition paragraphSeparator :: jsstring where
  "paragraphSeparator = lit [CHR 0x0A, CHR 0x0A]"


section \<open>Document ingestion: \<open>handleFileUpload\<close>\<close>

text \<open>
  The external collaborators are values handed to the model. A promise that the code
  awaits has settled either way.
\<close>

datatype 'a promise = Rejected | Resolved 'a

record TextItem =
  str :: jsstring

record TextContent =
  items :: "TextItem list"

record PDFPage =
  getTextContent :: "TextContent promise"

record PDFDocument =
  numPages :: nat
  getPage :: "nat \<Rightarrow> PDFPage promise"

record File =
  name :: jsstring
  type :: jsstring

text \<open>
  What the \<open>FileReader\<close> does with the file: constructing it or starting the read
  throws synchronously; or the \<open>load\<close> event fires, with the buffer or without a
  result; or the read ends in an \<open>error\<close> event, for which no handler is registered.
\<close>

datatype read_outcome =
    ReaderThrows
  | LoadFired "8 word list option"
  | NoLoadEvent

text \<open>
  The page loop \<open>for (let i = 1; i <= pdf.numPages; i++)\<close>, with \<open>fullText\<close> as
  accumulator. A rejected \<open>await\<close> leaves the loop and the callback.
\<close>

definition pageText :: "TextContent \<Rightarrow> jsstring" where
  "pageText textContent = join (lit '' '') (map str (items textContent))"

function extractPages :: "PDFDocument \<Rightarrow> nat \<Rightarrow> jsstring \<Rightarrow> jsstring promise" where
  "extractPages pdf i fullText =
     (if i \<le> numPages pdf then
        (case getPage pdf i of
           Rejected \<Rightarrow> Rejected
         | Resolved page \<Rightarrow>
             (case getTextContent page of
                Rejected \<Rightarrow> Rejected
              | Resolved textContent \<Rightarrow>
                  extractPages pdf (i + 1)
                    (fullText @ pageText textContent @ paragraphSeparator)))
      else Resolved fullText)"
  by pat_completeness auto
termination
  by (relation "measure (\<lambda>(pdf, i, fullText). numPages pdf + 1 - i)") auto

declare extractPages.simps [simp del]

definition createChat :: "jsstring \<Rightarrow> Chat" where
  "createChat fullText =
     \<lparr>model = lit ''gemini-2.5-flash'',
      history =
        [\<lparr>role = lit ''user'', parts = [promptPrefix @ fullText]\<rparr>,
         \<lparr>role = lit ''model'', parts = [initialBotMessage]\<rparr>]\<rparr>"

text \<open>
  A handler is modelled by the list of states it commits, one for each synchronous
  stretch of the handler between two suspension points, in order. The setters called
  in one stretch are committed together.

  The \<open>onload\<close> callback is an \<open>async\<close> function that the reader invokes later: a
  rejection of one of its awaits rejects the callback's own promise, which nobody
  observes, and commits nothing.
\<close>

definition onload ::
  "(8 word list \<Rightarrow> PDFDocument promise) \<Rightarrow> 8 word list option \<Rightarrow> app_state \<Rightarrow> app_state list"
where
  "onload getDocument result s =
     (case result of
        None \<Rightarrow> [s\<lparr>error := Some readFailureMessage, isProcessing := False\<rparr>]
      | Some typedArray \<Rightarrow>
          (case getDocument typedArray of
             Rejected \<Rightarrow> []
           | Resolved pdf \<Rightarrow>
               (case extractPages pdf 1 [] of
                  Rejected \<Rightarrow> []
                | Resolved fullText \<Rightarrow>
                    [s\<lparr>chat := Some (createChat fullText),
                       messages := [\<lparr>sender = BOT, text = initialBotMessage\<rparr>],
                       isProcessing := False\<rparr>])))"

definition handleFileUpload ::
  "(8 word list \<Rightarrow> PDFDocument promise) \<Rightarrow> read_outcome \<Rightarrow> File option \<Rightarrow> app_state
     \<Rightarrow> app_state list"
where
  "handleFileUpload getDocument rd file s =
     (case file of
        None \<Rightarrow> [s\<lparr>error := Some invalidFileMessage\<rparr>]
      | Some f \<Rightarrow>
          if type f \<noteq> pdfMediaType then [s\<lparr>error := Some invalidFileMessage\<rparr>]
          else
            let s1 = (resetState s)\<lparr>isProcessing := True, error := None,
                                     pdfName := Some (name f)\<rparr>
            in (case rd of
                  ReaderThrows \<Rightarrow>
                    [s1\<lparr>error := Some processingFailureMessage, isProcessing := False\<rparr>]
                | NoLoadEvent \<Rightarrow> [s1]
                | LoadFired result \<Rightarrow> s1 # onload getDocument result s1))"

text \<open>The state a handler leaves behind: the last one it committed, if any.\<close>

definition finalState :: "app_state \<Rightarrow> app_state list \<Rightarrow> app_state" where
  "finalState s tr = last (s # tr)"


section \<open>Conversation: \<open>handleSendMessage\<close>\<close>

text \<open>
  The chat service answers \<open>sendMessageStream\<close> by rejecting the call, or with a
  stream that yields finitely many fragments and then completes or throws.
\<close>

datatype stream_end = Completes | Throws

datatype stream_result = SendRejected | Streamed "jsstring list" stream_end

datatype js_error = TypeError

text \<open>
  The handler does not change the state itself: it hands updates to React, which
  queues them and runs them when it renders. The updates the handler issues are
  \<open>setMessages(prev => [...prev, m])\<close>, the updater of the streaming loop,
  \<open>setUserInput\<close> and \<open>setIsBotReplying\<close>.
\<close>

datatype update =
    AppendMessage ChatMessage
  | OverwriteLast
  | SetUserInput jsstring
  | SetIsBotReplying bool

text \<open>
  The updater of the streaming loop copies the array and assigns
  \<open>newMessages[newMessages.length - 1].text = botReply\<close>: the last message gets
  the new text, the other messages stay. On an empty array the element is
  \<open>undefined\<close> and the assignment throws a \<open>TypeError\<close> while the component
  renders. The updater closes over the variable \<open>botReply\<close> of the handler and reads
  it when React runs the updater, not when the handler issues it: \<open>applyUpdate\<close>
  takes the value the variable has at the time of the rendering. (Where React runs an
  updater at once because its queue is empty, the value is the same: the variable
  changes only in a stretch that issues a further updater.)
\<close>

definition overwriteLast :: "jsstring \<Rightarrow> ChatMessage list \<Rightarrow> ChatMessage list option" where
  "overwriteLast botReply prev =
     (if prev = [] then None
      else Some (prev[length prev - 1 := (prev ! (length prev - 1))\<lparr>text := botReply\<rparr>]))"

fun applyUpdate :: "jsstring \<Rightarrow> update \<Rightarrow> app_state \<Rightarrow> js_error + app_state" where
  "applyUpdate botReply (AppendMessage m) s = Inr (s\<lparr>messages := messages s @ [m]\<rparr>)"
| "applyUpdate botReply OverwriteLast s =
     (case overwriteLast botReply (messages s) of
        None \<Rightarrow> Inl TypeError
      | Some newMessages \<Rightarrow> Inr (s\<lparr>messages := newMessages\<rparr>))"
| "applyUpdate botReply (SetUserInput v) s = Inr (s\<lparr>userInput := v\<rparr>)"
| "applyUpdate botReply (SetIsBotReplying b) s = Inr (s\<lparr>isBotReplying := b\<rparr>)"

text \<open>A rendering runs the queued updates in the order of their issue.\<close>

fun render :: "jsstring \<Rightarrow> update list \<Rightarrow> app_state \<Rightarrow> js_error + app_state" where
  "render botReply [] s = Inr s"
| "render botReply (u # us) s =
     (case applyUpdate botReply u s of
        Inl err \<Rightarrow> Inl err
      | Inr s' \<Rightarrow> render botReply us s')"

text \<open>
  A stretch is what the handler does between two suspension points: the updates it
  issues there, and the value of \<open>botReply\<close> when it suspends again (the empty string
  before the variable is declared, where no issued updater reads it).
\<close>

record stretch =
  issued :: "update list"
  botReplyValue :: jsstring

text \<open>
  How the \<open>try\<close> statement is left: \<open>finally\<close> alone when the stream completes,
  \<open>catch\<close> and \<open>finally\<close> when it throws.
\<close>

definition communicationFailure :: ChatMessage where
  "communicationFailure = \<lparr>sender = BOT, text = communicationFailureMessage\<rparr>"

fun leave :: "stream_end \<Rightarrow> update list" where
  "leave Completes = [SetIsBotReplying False]"
| "leave Throws = [AppendMessage communicationFailure, SetIsBotReplying False]"

text \<open>
  The \<open>for await\<close> loop over the stream, with \<open>botReply\<close> as accumulator: one
  stretch for each fragment, which appends the fragment to \<open>botReply\<close> and issues the
  updater, and a last stretch in which the stream has ended.
\<close>

fun consume :: "jsstring list \<Rightarrow> stream_end \<Rightarrow> jsstring \<Rightarrow> stretch list" where
  "consume [] e botReply = [\<lparr>issued = leave e, botReplyValue = botReply\<rparr>]"
| "consume (chunk # stream) e botReply =
     \<lparr>issued = [OverwriteLast], botReplyValue = botReply @ chunk\<rparr>
       # consume stream e (botReply @ chunk)"

text \<open>
  The stretches of \<open>handleSendMessage\<close>, which reads \<open>userInput\<close>, \<open>chat\<close> and
  \<open>isBotReplying\<close> from the state \<open>s\<close> it was rendered with.
\<close>

definition sendStretches ::
  "(Chat \<Rightarrow> jsstring \<Rightarrow> stream_result) \<Rightarrow> app_state \<Rightarrow> stretch list"
where
  "sendStretches sendMessageStream s =
     (if trim (userInput s) = [] then []
      else
        (case chat s of
           None \<Rightarrow> []
         | Some c \<Rightarrow>
             if isBotReplying s then []
             else
               let userMessage = \<lparr>sender = USER, text = userInput s\<rparr>
               in \<lparr>issued = [AppendMessage userMessage, SetUserInput [],
                             SetIsBotReplying True],
                   botReplyValue = []\<rparr>
                  # (case sendMessageStream c (userInput s) of
                       SendRejected \<Rightarrow> [\<lparr>issued = leave Throws, botReplyValue = []\<rparr>]
                     | Streamed stream e \<Rightarrow>
                         \<lparr>issued = [AppendMessage \<lparr>sender = BOT, text = []\<rparr>],
                          botReplyValue = []\<rparr>
                           # consume stream e [])))"

text \<open>
  React renders between two stretches or lets further stretches add to the queue
  first; after the last stretch it renders. A schedule says, stretch by stretch,
  whether a rendering follows; where the schedule has no entry left, React renders, so
  that the empty schedule renders after every stretch. \<open>commits\<close> gives the states
  React commits: \<open>pending\<close> is the queue, \<open>c\<close> the state committed last.
\<close>

definition rendersNow :: "bool list \<Rightarrow> bool" where
  "rendersNow sched = (case sched of [] \<Rightarrow> True | b # bs \<Rightarrow> b)"

fun commits ::
  "bool list \<Rightarrow> stretch list \<Rightarrow> update list \<Rightarrow> app_state \<Rightarrow> js_error + app_state list"
where
  "commits sched [] pending c = Inr []"
| "commits sched (st # sts) pending c =
     (if sts = [] \<or> rendersNow sched then
        (case render (botReplyValue st) (pending @ issued st) c of
           Inl err \<Rightarrow> Inl err
         | Inr c' \<Rightarrow>
             (case commits (tl sched) sts [] c' of
                Inl err \<Rightarrow> Inl err
              | Inr tr \<Rightarrow> Inr (c' # tr)))
      else commits (tl sched) sts (pending @ issued st) c)"

definition handleSendMessage ::
  "bool list \<Rightarrow> (Chat \<Rightarrow> jsstring \<Rightarrow> stream_result) \<Rightarrow> app_state
     \<Rightarrow> js_error + app_state list"
where
  "handleSendMessage sched sendMessageStream s =
     commits sched (sendStretches sendMessageStream s) [] s"


section \<open>Reachable states\<close>

text \<open>
  Whether the upload passes the media-type check, and whether every step of the
  ingestion it starts resolves.
\<close>

definition accepted :: "File option \<Rightarrow> bool" where
  "accepted file = (case file of None \<Rightarrow> False | Some f \<Rightarrow> type f = pdfMediaType)"

definition ingestionSucceeds ::
  "(8 word list \<Rightarrow> PDFDocument promise) \<Rightarrow> read_outcome \<Rightarrow> bool"
where
  "ingestionSucceeds getDocument rd =
     (case rd of
        LoadFired (Some typedArray) \<Rightarrow>
          (case getDocument typedArray of
             Rejected \<Rightarrow> False
           | Resolved pdf \<Rightarrow>
               (case extractPages pdf 1 [] of Rejected \<Rightarrow> False | Resolved fullText \<Rightarrow> True))
      | _ \<Rightarrow> False)"



section \<open>Auxiliary notions for the statements\<close>

text \<open>The values \<open>botReply\<close> takes in the streaming loop, one for each fragment.\<close>

fun accumulate :: "jsstring \<Rightarrow> jsstring list \<Rightarrow> jsstring list" where
  "accumulate botReply [] = []"
| "accumulate botReply (chunk # stream) =
     (botReply @ chunk) # accumulate (botReply @ chunk) stream"

text \<open>The state that the updates of the last stretch make of \<open>s\<close>.\<close>

fun settle :: "stream_end \<Rightarrow> app_state \<Rightarrow> app_state" where
  "settle Completes s = s\<lparr>isBotReplying := False\<rparr>"
| "settle Throws s =
     s\<lparr>messages := messages s @ [communicationFailure], isBotReplying := False\<rparr>"

text \<open>
  The selection a schedule makes among the states that renderings after every stretch
  would commit: those followed by a rendering, and always the last one.
\<close>

fun pick :: "bool list \<Rightarrow> 'a list \<Rightarrow> 'a list" where
  "pick sched [] = []"
| "pick sched [x] = [x]"
| "pick sched (x # y # ys) = (if rendersNow sched then [x] else []) @ pick (tl sched) (y # ys)"

text \<open>The text of page \<open>i\<close>, when both awaits for that page resolve.\<close>

definition pageTextAt :: "PDFDocument \<Rightarrow> nat \<Rightarrow> jsstring option" where
  "pageTextAt pdf i =
     (case getPage pdf i of
        Rejected \<Rightarrow> None
      | Resolved page \<Rightarrow>
          (case getTextContent page of
             Rejected \<Rightarrow> None
           | Resolved textContent \<Rightarrow> Some (pageText textContent)))"


section \<open>Example inputs\<close>

text \<open>
  Two chat services, one rejecting every send call and one streaming given fragments;
  the state after an ingestion with \<open>" hola "\<close> typed, and the states a rejected send
  commits from it; a PDF file and a text file; a parser that rejects every buffer and
  one that serves a given document; documents of one and of two pages; the states
  that three uploads into the initial state end in; and a schedule that renders after
  the first stretch and then not before the last one, with the state a completed reply
  of the three fragments ends in.
\<close>

definition rejectingService :: "Chat \<Rightarrow> jsstring \<Rightarrow> stream_result" where
  "rejectingService c message = SendRejected"

definition streamingService ::
  "jsstring list \<Rightarrow> stream_end \<Rightarrow> Chat \<Rightarrow> jsstring \<Rightarrow> stream_result"
where
  "streamingService fs e c message = Streamed fs e"

definition holaFragments :: "jsstring list" where
  "holaFragments = [lit ''Hola'', lit '', '', lit ''mundo'']"

definition readyState :: app_state where
  "readyState =
     \<lparr>pdfName = Some (lit ''bases.pdf''), isProcessing = False,
      messages = [\<lparr>sender = BOT, text = initialBotMessage\<rparr>], error = None,
      chat = Some (createChat (lit ''a'' @ paragraphSeparator)),
      userInput = lit '' hola '', isBotReplying = False\<rparr>"

definition blankState :: app_state where
  "blankState = readyState\<lparr>userInput := lit [CHR 0x20, CHR 0x09, CHR 0x0A]\<rparr>"

definition sentState :: app_state where
  "sentState =
     readyState\<lparr>messages := messages readyState @ [\<lparr>sender = USER, text = lit '' hola ''\<rparr>],
                userInput := [], isBotReplying := True\<rparr>"

definition failedSendState :: app_state where
  "failedSendState =
     sentState\<lparr>messages := messages sentState @ [communicationFailure],
               isBotReplying := False\<rparr>"

definition exampleFile :: File where
  "exampleFile = \<lparr>name = lit ''bases.pdf'', type = lit ''application/pdf''\<rparr>"

definition textFile :: File where
  "textFile = \<lparr>name = lit ''notas.txt'', type = lit ''text/plain''\<rparr>"

definition rejectingEngine :: "8 word list \<Rightarrow> PDFDocument promise" where
  "rejectingEngine typedArray = Rejected"

definition servingEngine :: "PDFDocument \<Rightarrow> 8 word list \<Rightarrow> PDFDocument promise" where
  "servingEngine pdf typedArray = Resolved pdf"

definition onePagePdf :: PDFDocument where
  "onePagePdf =
     \<lparr>numPages = 1,
      getPage = (\<lambda>i. Resolved \<lparr>getTextContent = Resolved \<lparr>items = [\<lparr>str = lit ''a''\<rparr>]\<rparr>\<rparr>)\<rparr>"

definition twoPagePdf :: PDFDocument where
  "twoPagePdf =
     \<lparr>numPages = 2,
      getPage = (\<lambda>i.
        if i = 1 then
          Resolved \<lparr>getTextContent =
            Resolved \<lparr>items = [\<lparr>str = lit ''Hola''\<rparr>, \<lparr>str = lit ''mundo''\<rparr>]\<rparr>\<rparr>
        else if i = 2 then
          Resolved \<lparr>getTextContent = Resolved \<lparr>items = [\<lparr>str = lit ''fin''\<rparr>]\<rparr>\<rparr>
        else Rejected)\<rparr>"

definition twoPageTexts :: "nat \<Rightarrow> jsstring" where
  "twoPageTexts i = (if i = 1 then lit ''Hola mundo'' else lit ''fin'')"

definition readFailedState :: app_state where
  "readFailedState =
     finalState initialState
       (handleFileUpload rejectingEngine (LoadFired None) (Some exampleFile) initialState)"

definition parseFailedState :: app_state where
  "parseFailedState =
     finalState initialState
       (handleFileUpload rejectingEngine (LoadFired (Some [])) (Some exampleFile) initialState)"


definition coalescing :: "bool list" where
  "coalescing = [True, False, False, False, False]"


section \<open>Renderings and schedules\<close>


lemma rendersNow_Nil [simp]: "rendersNow []"
  by (simp add: rendersNow_def)

lemma pick_empty_schedule: "pick [] xs = xs"
  by (induction "[] :: bool list" xs rule: pick.induct) (simp_all add: rendersNow_def)

lemma pick_step:
  "xs \<noteq> [] \<Longrightarrow> pick sched (x # xs) = (if rendersNow sched then [x] else []) @ pick (tl sched) xs"
  by (cases xs) simp_all

lemma last_pick: "xs \<noteq> [] \<Longrightarrow> pick sched xs \<noteq> [] \<and> last (pick sched xs) = last xs"
  by (induction sched xs rule: pick.induct) auto



lemma render_append:
  "render b (us @ vs) s = (case render b us s of Inl err \<Rightarrow> Inl err | Inr s' \<Rightarrow> render b vs s')"
  by (induction us arbitrary: s) (auto split: sum.splits)

lemma render_leave: "render b (leave e) s = Inr (settle e s)"
  by (cases e) simp_all

lemma overwriteLast_snoc:
  "overwriteLast t (ms @ [m]) = Some (ms @ [m\<lparr>text := t\<rparr>])"
  by (simp add: overwriteLast_def)

lemma consume_not_Nil [simp]: "consume fs e t \<noteq> []"
  by (cases fs) simp_all

lemma length_accumulate [simp]: "length (accumulate acc fs) = length fs"
  by (induction fs arbitrary: acc) auto

lemma last_accumulate: "last (acc # accumulate acc fs) = acc @ concat fs"
  by (induction fs arbitrary: acc) auto


text \<open>
  The streaming loop, from any committed state and queue such that the queue leads to
  the reply state with the current \<open>botReply\<close>, and to the reply state with any later
  value once a further updater is queued: the states committed are those that the
  schedule picks among the states of a rendering after every stretch.
\<close>

lemma commits_consume:
  "render t q c = Inr (v\<lparr>messages := ms @ [\<lparr>sender = BOT, text = t\<rparr>]\<rparr>) \<Longrightarrow>
   \<forall>b. render b (q @ [OverwriteLast]) c = Inr (v\<lparr>messages := ms @ [\<lparr>sender = BOT, text = b\<rparr>]\<rparr>) \<Longrightarrow>
   commits sched (consume fs e t) q c
     = Inr (pick sched
         (map (\<lambda>b. v\<lparr>messages := ms @ [\<lparr>sender = BOT, text = b\<rparr>]\<rparr>) (accumulate t fs)
          @ [settle e (v\<lparr>messages := ms @ [\<lparr>sender = BOT, text = t @ concat fs\<rparr>]\<rparr>)]))"
proof (induction fs arbitrary: sched q c t)
  case Nil
  then show ?case by (simp add: render_append render_leave)
next
  case (Cons f fs)
  let ?g = "\<lambda>b. v\<lparr>messages := ms @ [\<lparr>sender = BOT, text = b\<rparr>]\<rparr>"
  let ?rest = "map ?g (accumulate (t @ f) fs) @ [settle e (?g ((t @ f) @ concat fs))]"
  have now: "render (t @ f) (q @ [OverwriteLast]) c = Inr (?g (t @ f))"
    using Cons.prems(2) by simp
  show ?case
  proof (cases "rendersNow sched")
    case True
    have i1: "render (t @ f) [] (?g (t @ f)) = Inr (?g (t @ f))" by simp
    have i2: "\<forall>b. render b ([] @ [OverwriteLast]) (?g (t @ f)) = Inr (?g b)"
      by (simp add: overwriteLast_snoc)
    from Cons.IH [OF i1 i2, of "tl sched"] now True
    show ?thesis by (simp add: pick_step)
  next
    case False
    have i2: "\<forall>b. render b ((q @ [OverwriteLast]) @ [OverwriteLast]) c = Inr (?g b)"
    proof
      fix b
      have "render b ((q @ [OverwriteLast]) @ [OverwriteLast]) c
              = (case render b (q @ [OverwriteLast]) c of
                   Inl err \<Rightarrow> Inl err
                 | Inr s' \<Rightarrow> render b [OverwriteLast] s')"
        by (rule render_append)
      also have "\<dots> = render b [OverwriteLast] (?g b)"
        using Cons.prems(2) by simp
      also have "\<dots> = Inr (?g b)"
        by (simp add: overwriteLast_snoc)
      finally show "render b ((q @ [OverwriteLast]) @ [OverwriteLast]) c = Inr (?g b)" .
    qed
    from Cons.IH [OF now i2, of "tl sched"] False
    show ?thesis by (simp add: pick_step)
  qed
qed


lemma commits_placeholder:
  assumes "\<forall>b. render b q c = Inr s0"
  shows "commits sched
           (\<lparr>issued = [AppendMessage \<lparr>sender = BOT, text = []\<rparr>], botReplyValue = []\<rparr>
              # consume fs e []) q c
         = Inr (pick sched
             (map (\<lambda>b. s0\<lparr>messages := messages s0 @ [\<lparr>sender = BOT, text = b\<rparr>]\<rparr>)
                  ([] # accumulate [] fs)
              @ [settle e (s0\<lparr>messages := messages s0
                                 @ [\<lparr>sender = BOT, text = concat fs\<rparr>]\<rparr>)]))"
proof -
  let ?g = "\<lambda>b. s0\<lparr>messages := messages s0 @ [\<lparr>sender = BOT, text = b\<rparr>]\<rparr>"
  let ?ph = "AppendMessage \<lparr>sender = BOT, text = []\<rparr>"
  have app: "render b (q @ us) c = render b us s0" for b us
    using assms by (simp add: render_append)
  show ?thesis
  proof (cases "rendersNow sched")
    case True
    have i1: "render [] [] (?g []) = Inr (?g [])" by simp
    have i2: "\<forall>b. render b ([] @ [OverwriteLast]) (?g []) = Inr (?g b)"
      by (simp add: overwriteLast_snoc)
    from commits_consume [where v = s0 and ms = "messages s0", OF i1 i2, of "tl sched" fs e]
      True app [of "[]" "[?ph]"]
    show ?thesis by (simp add: pick_step)
  next
    case False
    have i1: "render [] (q @ [?ph]) c = Inr (?g [])"
      using app [of "[]" "[?ph]"] by simp
    have i2: "\<forall>b. render b ((q @ [?ph]) @ [OverwriteLast]) c = Inr (?g b)"
      using app [of _ "[?ph, OverwriteLast]"] by (simp add: overwriteLast_snoc)
    from commits_consume [where v = s0 and ms = "messages s0", OF i1 i2, of "tl sched" fs e]
      False
    show ?thesis by (simp add: pick_step)
  qed
qed

lemma send_streamed:
  assumes "trim (userInput s) \<noteq> []" and "chat s = Some c" and "\<not> isBotReplying s"
    and "sms c (userInput s) = Streamed fs e"
  defines "s0 \<equiv> s\<lparr>messages := messages s @ [\<lparr>sender = USER, text = userInput s\<rparr>],
                    userInput := [], isBotReplying := True\<rparr>"
  shows "handleSendMessage sched sms s =
           Inr (pick sched
             (s0 # map (\<lambda>t. s0\<lparr>messages := messages s0 @ [\<lparr>sender = BOT, text = t\<rparr>]\<rparr>)
                       ([] # accumulate [] fs)
              @ [settle e (s0\<lparr>messages := messages s0
                                 @ [\<lparr>sender = BOT, text = concat fs\<rparr>]\<rparr>)]))"
proof -
  let ?first = "[AppendMessage \<lparr>sender = USER, text = userInput s\<rparr>, SetUserInput [],
                 SetIsBotReplying True]"
  let ?rest = "\<lparr>issued = [AppendMessage \<lparr>sender = BOT, text = []\<rparr>], botReplyValue = []\<rparr>
                 # consume fs e []"
  have st: "sendStretches sms s = \<lparr>issued = ?first, botReplyValue = []\<rparr> # ?rest"
    using assms(1-4) by (simp add: sendStretches_def)
  have first: "render b ?first s = Inr s0" for b
    by (simp add: s0_def)
  show ?thesis
  proof (cases "rendersNow sched")
    case True
    have "\<forall>b. render b [] s0 = Inr s0" by simp
    from commits_placeholder [OF this, of "tl sched" fs e] True first [of "[]"]
    show ?thesis by (simp add: handleSendMessage_def st pick_step)
  next
    case False
    have "\<forall>b. render b ?first s = Inr s0" using first by blast
    from commits_placeholder [OF this, of "tl sched" fs e] False
    show ?thesis by (simp add: handleSendMessage_def st pick_step)
  qed
qed

lemma send_rejected_trace:
  assumes "trim (userInput s) \<noteq> []" and "chat s = Some c" and "\<not> isBotReplying s"
    and "sms c (userInput s) = SendRejected"
  defines "s0 \<equiv> s\<lparr>messages := messages s @ [\<lparr>sender = USER, text = userInput s\<rparr>],
                    userInput := [], isBotReplying := True\<rparr>"
  shows "handleSendMessage sched sms s = Inr (pick sched [s0, settle Throws s0])"
  using assms(1-4) by (simp add: handleSendMessage_def sendStretches_def s0_def)

lemma send_refused:
  assumes "chat s = None \<or> isBotReplying s \<or> trim (userInput s) = []"
  shows "handleSendMessage sched sms s = Inr []"
  using assms
  by (auto simp: handleSendMessage_def sendStretches_def split: option.splits)


section \<open>Properties of \<open>handleSendMessage\<close>\<close>


lemma ready_sendable:
  "trim (userInput readyState) \<noteq> []"
  "chat readyState = Some (createChat (lit ''a'' @ paragraphSeparator))"
  "\<not> isBotReplying readyState"
  by (simp_all add: readyState_def trim_def lit_def isWhiteSpace_def)

lemma sent_state:
  "readyState\<lparr>messages := messages readyState @ [\<lparr>sender = USER, text = userInput readyState\<rparr>],
              userInput := [], isBotReplying := True\<rparr> = sentState"
  by (simp add: sentState_def readyState_def)

lemma hola_streamed:
  "streamingService holaFragments e (createChat (lit ''a'' @ paragraphSeparator))
     (userInput readyState) = Streamed holaFragments e"
  by (simp add: streamingService_def)

lemma hola_concat: "concat holaFragments = lit ''Hola, mundo''"
  by (simp add: holaFragments_def lit_def)




text \<open>
  C5. When a precondition of send is violated (no conversation context, or a reply is
  being streamed, or the input is empty after trimming), the handler issues no update
  and nothing is committed, whatever the schedule: the whole session state, error field
  included, is as before.
\<close>

theorem send_precondition_noop:
  assumes "chat s = None \<or> isBotReplying s \<or> trim (userInput s) = []"
  shows "\<exists>tr. handleSendMessage sched sendMessageStream s = Inr tr \<and> tr = []
           \<and> finalState s tr = s"
  using send_refused [OF assms] by (simp add: finalState_def)

text \<open>The precondition fails on an input of a space, a tab and a line feed.\<close>

theorem send_precondition_noop_blank:
  "trim (userInput blankState) = []
   \<and> (\<exists>tr. handleSendMessage coalescing (streamingService holaFragments Completes) blankState
              = Inr tr
          \<and> tr = [] \<and> finalState blankState tr = blankState)"
proof -
  have h: "trim (userInput blankState) = []"
    by (simp add: blankState_def trim_def lit_def isWhiteSpace_def)
  then have "chat blankState = None \<or> isBotReplying blankState \<or> trim (userInput blankState) = []"
    by simp
  from send_precondition_noop [OF this, of coalescing
        "streamingService holaFragments Completes"] h
  show ?thesis by simp
qed

text \<open>
  C6. When the send call itself is rejected, then under every schedule of renderings
  the handler ends with the transcript extended by the USER message and exactly one BOT
  message, the fixed communication-failure notice; replying is false again, and the
  document name and the conversation context are as before.
\<close>

theorem send_call_fails:
  assumes "trim (userInput s) \<noteq> []" and "chat s = Some c" and "\<not> isBotReplying s"
    and "sendMessageStream c (userInput s) = SendRejected"
  shows "\<exists>tr. handleSendMessage sched sendMessageStream s = Inr tr
           \<and> messages (finalState s tr)
               = messages s @ [\<lparr>sender = USER, text = userInput s\<rparr>,
                               \<lparr>sender = BOT, text = communicationFailureMessage\<rparr>]
           \<and> length (filter (\<lambda>m. sender m = BOT) (messages (finalState s tr)))
               = Suc (length (filter (\<lambda>m. sender m = BOT) (messages s)))
           \<and> \<not> isBotReplying (finalState s tr)
           \<and> pdfName (finalState s tr) = pdfName s
           \<and> chat (finalState s tr) = chat s"
proof -
  define s0 where "s0 = s\<lparr>messages := messages s @ [\<lparr>sender = USER, text = userInput s\<rparr>],
                          userInput := [], isBotReplying := True\<rparr>"
  have run: "handleSendMessage sched sendMessageStream s = Inr (pick sched [s0, settle Throws s0])"
    unfolding s0_def
    by (rule send_rejected_trace [where sms = sendMessageStream and c = c, OF assms])
  have fin: "finalState s (pick sched [s0, settle Throws s0]) = settle Throws s0"
    using last_pick [of "[s0, settle Throws s0]" sched] by (simp add: finalState_def)
  show ?thesis
    unfolding run using fin by (simp add: s0_def communicationFailure_def)
qed

text \<open>The rejected send from the state after an ingestion, with \<open>" hola "\<close> typed.\<close>

theorem send_call_fails_ready:
  "trim (userInput readyState) \<noteq> [] \<and> \<not> isBotReplying readyState
   \<and> (\<exists>tr. handleSendMessage coalescing rejectingService readyState = Inr tr
          \<and> messages (finalState readyState tr)
              = [\<lparr>sender = BOT, text = initialBotMessage\<rparr>,
                 \<lparr>sender = USER, text = lit '' hola ''\<rparr>,
                 \<lparr>sender = BOT, text = communicationFailureMessage\<rparr>]
          \<and> \<not> isBotReplying (finalState readyState tr)
          \<and> pdfName (finalState readyState tr) = Some (lit ''bases.pdf'')
          \<and> chat (finalState readyState tr) = chat readyState)"
proof -
  have h4: "rejectingService (createChat (lit ''a'' @ paragraphSeparator)) (userInput readyState)
              = SendRejected"
    by (simp add: rejectingService_def)
  have m: "messages readyState = [\<lparr>sender = BOT, text = initialBotMessage\<rparr>]"
    and u: "userInput readyState = lit '' hola ''"
    and p: "pdfName readyState = Some (lit ''bases.pdf'')"
    by (simp_all add: readyState_def)
  from send_call_fails [where sendMessageStream = rejectingService and s = readyState
        and sched = coalescing, OF ready_sendable h4] ready_sendable(1,3)
  show ?thesis unfolding m u p by auto
qed

text \<open>
  C10. When the stream throws after delivering the fragments \<open>fs\<close>, then under every
  schedule of renderings the handler ends with the BOT reply accumulated so far still
  in the transcript as it is, and a further BOT message with the communication-failure
  notice appended after it; replying is false again. With a rendering after every
  stretch, the state committed before the last one shows the accumulated reply as the
  last message.
\<close>

theorem midstream_failure:
  assumes "trim (userInput s) \<noteq> []" and "chat s = Some c" and "\<not> isBotReplying s"
    and "sendMessageStream c (userInput s) = Streamed fs Throws"
  shows "(\<exists>tr. handleSendMessage sched sendMessageStream s = Inr tr
            \<and> messages (finalState s tr)
                = messages s @ [\<lparr>sender = USER, text = userInput s\<rparr>,
                                \<lparr>sender = BOT, text = concat fs\<rparr>,
                                \<lparr>sender = BOT, text = communicationFailureMessage\<rparr>]
            \<and> \<not> isBotReplying (finalState s tr))
         \<and> (\<exists>tr. handleSendMessage [] sendMessageStream s = Inr tr
            \<and> messages (last (butlast tr))
                = messages s @ [\<lparr>sender = USER, text = userInput s\<rparr>,
                                \<lparr>sender = BOT, text = concat fs\<rparr>])"
proof -
  define s0 where "s0 = s\<lparr>messages := messages s @ [\<lparr>sender = USER, text = userInput s\<rparr>],
                          userInput := [], isBotReplying := True\<rparr>"
  define g where "g = (\<lambda>t. s0\<lparr>messages := messages s0 @ [\<lparr>sender = BOT, text = t\<rparr>]\<rparr>)"
  define every where
    "every = s0 # map g ([] # accumulate [] fs) @ [settle Throws (g (concat fs))]"
  have run: "handleSendMessage sched' sendMessageStream s = Inr (pick sched' every)" for sched'
    unfolding every_def g_def s0_def
    by (rule send_streamed [where sms = sendMessageStream and c = c, OF assms])
  have ne: "every \<noteq> []" by (simp add: every_def)
  have fin: "finalState s (pick sched every) = settle Throws (g (concat fs))"
    using last_pick [OF ne, of sched] by (simp add: finalState_def) (simp add: every_def)
  have after: "messages (finalState s (pick sched every))
      = messages s @ [\<lparr>sender = USER, text = userInput s\<rparr>, \<lparr>sender = BOT, text = concat fs\<rparr>,
                      \<lparr>sender = BOT, text = communicationFailureMessage\<rparr>]"
    unfolding fin by (simp add: g_def s0_def communicationFailure_def)
  have flag: "\<not> isBotReplying (finalState s (pick sched every))"
    unfolding fin by simp
  have "butlast (pick [] every) = s0 # map g ([] # accumulate [] fs)"
    unfolding pick_empty_schedule every_def by (simp add: butlast_append)
  then have "last (butlast (pick [] every)) = g (last ([] # accumulate [] fs))"
    using last_map [of "[] # accumulate [] fs" g] by simp
  then have before: "messages (last (butlast (pick [] every)))
      = messages s @ [\<lparr>sender = USER, text = userInput s\<rparr>, \<lparr>sender = BOT, text = concat fs\<rparr>]"
    using last_accumulate [of "[]" fs] by (simp add: g_def s0_def)
  from run [of sched] after flag run [of "[]"] before show ?thesis by blast
qed

text \<open>The stream of the three fragments throwing at its end.\<close>

theorem midstream_failure_hola:
  "trim (userInput readyState) \<noteq> [] \<and> \<not> isBotReplying readyState
   \<and> (\<exists>tr. handleSendMessage coalescing (streamingService holaFragments Throws) readyState
              = Inr tr
          \<and> messages (finalState readyState tr)
              = [\<lparr>sender = BOT, text = initialBotMessage\<rparr>,
                 \<lparr>sender = USER, text = lit '' hola ''\<rparr>,
                 \<lparr>sender = BOT, text = lit ''Hola, mundo''\<rparr>,
                 \<lparr>sender = BOT, text = communicationFailureMessage\<rparr>]
          \<and> \<not> isBotReplying (finalState readyState tr))
   \<and> (\<exists>tr. handleSendMessage [] (streamingService holaFragments Throws) readyState = Inr tr
          \<and> messages (last (butlast tr))
              = [\<lparr>sender = BOT, text = initialBotMessage\<rparr>,
                 \<lparr>sender = USER, text = lit '' hola ''\<rparr>,
                 \<lparr>sender = BOT, text = lit ''Hola, mundo''\<rparr>])"
proof -
  have m: "messages readyState = [\<lparr>sender = BOT, text = initialBotMessage\<rparr>]"
    and u: "userInput readyState = lit '' hola ''"
    by (simp_all add: readyState_def)
  from midstream_failure [where sendMessageStream = "streamingService holaFragments Throws"
        and s = readyState and sched = coalescing, OF ready_sendable hola_streamed]
    ready_sendable(1,3)
  show ?thesis unfolding m u hola_concat by auto
qed

text \<open>
  C9 (amended). A send that satisfies its preconditions first issues, in one stretch,
  the append of a USER message with the input text as typed (not trimmed), the clearing
  of the input field and replying true. If the send call returns a stream, the next
  stretch issues the append of an empty-text BOT placeholder; if the send call is
  rejected, no placeholder is appended and the next and last stretch appends the
  communication-failure notice and sets replying false. With a rendering after every
  stretch the first committed state is the prior one with these three changes, and the
  next one has the placeholder, or the notice, as the new last element.
\<close>

theorem send_begins:
  assumes "trim (userInput s) \<noteq> []" and "chat s = Some c" and "\<not> isBotReplying s"
  defines "s0 \<equiv> s\<lparr>messages := messages s @ [\<lparr>sender = USER, text = userInput s\<rparr>],
                    userInput := [], isBotReplying := True\<rparr>"
  shows "(\<exists>rest. sendStretches sendMessageStream s
              = \<lparr>issued = [AppendMessage \<lparr>sender = USER, text = userInput s\<rparr>,
                           SetUserInput [], SetIsBotReplying True],
                 botReplyValue = []\<rparr> # rest
            \<and> (case sendMessageStream c (userInput s) of
                  Streamed fs e \<Rightarrow>
                    issued (hd rest) = [AppendMessage \<lparr>sender = BOT, text = []\<rparr>]
                | SendRejected \<Rightarrow>
                    map issued rest
                      = [[AppendMessage \<lparr>sender = BOT, text = communicationFailureMessage\<rparr>,
                          SetIsBotReplying False]]))
         \<and> (\<exists>tr. handleSendMessage [] sendMessageStream s = Inr (s0 # tr)
            \<and> (case sendMessageStream c (userInput s) of
                  Streamed fs e \<Rightarrow>
                    hd tr = s0\<lparr>messages := messages s0 @ [\<lparr>sender = BOT, text = []\<rparr>]\<rparr>
                | SendRejected \<Rightarrow>
                    tr = [s0\<lparr>messages := messages s0 @ [\<lparr>sender = BOT,
                                                           text = communicationFailureMessage\<rparr>],
                             isBotReplying := False\<rparr>]))"
proof (cases "sendMessageStream c (userInput s)")
  case SendRejected
  from send_rejected_trace [where sms = sendMessageStream and c = c and sched = "[]",
        OF assms(1-3) this] assms(1-3)
  show ?thesis using SendRejected
    by (simp add: s0_def communicationFailure_def pick_empty_schedule sendStretches_def)
next
  case (Streamed fs e)
  from send_streamed [where sms = sendMessageStream and c = c and sched = "[]",
        OF assms(1-3) this] assms(1-3)
  show ?thesis using Streamed
    by (simp add: s0_def pick_empty_schedule sendStretches_def)
qed

text \<open>The first two stretches and states of a streamed reply to \<open>" hola "\<close>.\<close>

theorem send_begins_hola:
  "trim (userInput readyState) \<noteq> [] \<and> \<not> isBotReplying readyState
   \<and> (\<exists>rest. sendStretches (streamingService holaFragments Completes) readyState
              = \<lparr>issued = [AppendMessage \<lparr>sender = USER, text = lit '' hola ''\<rparr>,
                           SetUserInput [], SetIsBotReplying True],
                 botReplyValue = []\<rparr> # rest
          \<and> issued (hd rest) = [AppendMessage \<lparr>sender = BOT, text = []\<rparr>])
   \<and> (\<exists>tr. handleSendMessage [] (streamingService holaFragments Completes) readyState
              = Inr (sentState # tr)
          \<and> hd tr = sentState\<lparr>messages := messages sentState @ [\<lparr>sender = BOT, text = []\<rparr>]\<rparr>)
   \<and> userInput sentState = [] \<and> isBotReplying sentState
   \<and> last (messages sentState) = \<lparr>sender = USER, text = lit '' hola ''\<rparr>"
proof -
  have u: "userInput readyState = lit '' hola ''"
    by (simp add: readyState_def)
  have o: "userInput sentState = [] \<and> isBotReplying sentState
           \<and> last (messages sentState) = \<lparr>sender = USER, text = lit '' hola ''\<rparr>"
    by (simp add: sentState_def)
  from send_begins [where sendMessageStream = "streamingService holaFragments Completes"
        and s = readyState, OF ready_sendable] ready_sendable(1,3) o
  show ?thesis unfolding sent_state hola_streamed unfolding u by simp
qed

text \<open>
  C9 as stated fails when the send call is rejected: the handler issues no append of a
  placeholder, and the two states committed with a rendering after every stretch
  contain no empty-text BOT message at all.
\<close>

theorem placeholder_after_rejected_send:
  "trim (userInput readyState) \<noteq> [] \<and> chat readyState \<noteq> None \<and> \<not> isBotReplying readyState
   \<and> handleSendMessage [] rejectingService readyState = Inr [sentState, failedSendState]
   \<and> \<lparr>sender = BOT, text = []\<rparr> \<notin> set (messages sentState)
   \<and> \<lparr>sender = BOT, text = []\<rparr> \<notin> set (messages failedSendState)
   \<and> map issued (sendStretches rejectingService readyState)
       = [[AppendMessage \<lparr>sender = USER, text = lit '' hola ''\<rparr>, SetUserInput [],
           SetIsBotReplying True],
          [AppendMessage communicationFailure, SetIsBotReplying False]]"
proof -
  have h4: "rejectingService (createChat (lit ''a'' @ paragraphSeparator)) (userInput readyState)
              = SendRejected"
    by (simp add: rejectingService_def)
  have run: "handleSendMessage [] rejectingService readyState = Inr [sentState, failedSendState]"
    using send_rejected_trace [where sms = rejectingService and s = readyState
        and sched = "[]", OF ready_sendable h4]
    unfolding sent_state pick_empty_schedule by (simp add: failedSendState_def)
  have a: "\<lparr>sender = BOT, text = []\<rparr> \<notin> set (messages sentState)"
    by (simp add: sentState_def readyState_def initialBotMessage_def lit_def)
  have b: "\<lparr>sender = BOT, text = []\<rparr> \<notin> set (messages failedSendState)"
    by (simp add: failedSendState_def sentState_def readyState_def initialBotMessage_def
        communicationFailure_def communicationFailureMessage_def lit_def)
  have i: "map issued (sendStretches rejectingService readyState)
       = [[AppendMessage \<lparr>sender = USER, text = lit '' hola ''\<rparr>, SetUserInput [],
           SetIsBotReplying True],
          [AppendMessage communicationFailure, SetIsBotReplying False]]"
    using ready_sendable h4 by (simp add: sendStretches_def) (simp add: readyState_def)
  from run a b i ready_sendable show ?thesis by simp
qed


section \<open>Properties of \<open>handleFileUpload\<close>\<close>

lemma extractPages_from:
  "\<forall>j\<in>{1..numPages pdf}. pageTextAt pdf j = Some (t j) \<Longrightarrow> 1 \<le> i \<Longrightarrow>
   extractPages pdf i acc
     = Resolved (acc @ concat (map (\<lambda>j. t j @ paragraphSeparator) [i..<Suc (numPages pdf)]))"
proof (induction pdf i acc rule: extractPages.induct)
  case (1 pdf i fullText)
  show ?case
  proof (cases "i \<le> numPages pdf")
    case False
    then show ?thesis by (simp add: extractPages.simps [of pdf i])
  next
    case True
    with "1.prems" have "pageTextAt pdf i = Some (t i)" by simp
    then obtain page textContent where
      p: "getPage pdf i = Resolved page" and
      c: "getTextContent page = Resolved textContent" and
      x: "pageText textContent = t i"
      by (auto simp: pageTextAt_def split: promise.splits)
    have step: "extractPages pdf (i + 1) (fullText @ pageText textContent @ paragraphSeparator)
        = Resolved ((fullText @ pageText textContent @ paragraphSeparator)
                    @ concat (map (\<lambda>j. t j @ paragraphSeparator) [i + 1..<Suc (numPages pdf)]))"
      using "1.IH" [OF True p c "1.prems"(1)] by simp
    have "[i..<Suc (numPages pdf)] = i # [i + 1..<Suc (numPages pdf)]"
      using True by (simp add: upt_conv_Cons del: upt_Suc)
    then show ?thesis
      using True p c x step by (simp add: extractPages.simps [of pdf i] del: upt_Suc)
  qed
qed

lemma upload_success_trace:
  fixes s :: app_state
  assumes "type f = pdfMediaType" and "getDocument typedArray = Resolved pdf"
    and "extractPages pdf 1 [] = Resolved fullText"
  defines "s1 \<equiv> (resetState s)\<lparr>isProcessing := True, error := None, pdfName := Some (name f)\<rparr>"
  shows "handleFileUpload getDocument (LoadFired (Some typedArray)) (Some f) s
           = [s1, s1\<lparr>chat := Some (createChat fullText),
                     messages := [\<lparr>sender = BOT, text = initialBotMessage\<rparr>],
                     isProcessing := False\<rparr>]"
  using assms(1-3) by (simp add: handleFileUpload_def onload_def Let_def s1_def)

text \<open>
  C2 (amended). For a PDF of \<open>N\<close> pages whose texts are \<open>t 1 .. t N\<close>, the
  extracted text is \<open>t 1, .., t N\<close> in ascending page order, each page's text followed
  by one double newline: \<open>N\<close> separators, the last one trailing. The first entry of the
  seed history of the conversation context is the instruction prefix followed by this
  text.
\<close>

theorem extracted_text:
  assumes "\<forall>i\<in>{1..numPages pdf}. pageTextAt pdf i = Some (t i)"
    and "type f = pdfMediaType" and "getDocument typedArray = Resolved pdf"
  defines "fullText \<equiv> concat (map (\<lambda>i. t i @ paragraphSeparator) [1..<Suc (numPages pdf)])"
  shows "extractPages pdf 1 [] = Resolved fullText
         \<and> (\<exists>c. chat (finalState s (handleFileUpload getDocument (LoadFired (Some typedArray))
                                     (Some f) s)) = Some c
                \<and> map parts (history c) = [[promptPrefix @ fullText], [initialBotMessage]])"
proof -
  have x: "extractPages pdf 1 [] = Resolved fullText"
    using extractPages_from [OF assms(1), of 1 "[]"] by (simp add: fullText_def)
  from upload_success_trace [where getDocument = getDocument and typedArray = typedArray
        and s = s, OF assms(2,3) x] x
  show ?thesis
    by (simp add: finalState_def createChat_def)
qed

text \<open>A PDF of two pages, the first with the items \<open>"Hola"\<close> and \<open>"mundo"\<close>.\<close>

theorem extracted_text_two_pages:
  "pageTextAt twoPagePdf 1 = Some (lit ''Hola mundo'')
   \<and> pageTextAt twoPagePdf 2 = Some (lit ''fin'')
   \<and> extractPages twoPagePdf 1 []
       = Resolved (lit ''Hola mundo'' @ paragraphSeparator @ lit ''fin'' @ paragraphSeparator)
   \<and> (\<exists>c. chat (finalState initialState
                   (handleFileUpload (servingEngine twoPagePdf) (LoadFired (Some []))
                      (Some exampleFile) initialState)) = Some c
          \<and> map parts (history c)
              = [[promptPrefix @ lit ''Hola mundo'' @ paragraphSeparator @ lit ''fin''
                    @ paragraphSeparator],
                 [initialBotMessage]])"
proof -
  have h1: "\<forall>i\<in>{1..numPages twoPagePdf}. pageTextAt twoPagePdf i = Some (twoPageTexts i)"
  proof
    fix i assume "i \<in> {1..numPages twoPagePdf}"
    then have "i = 1 \<or> i = 2" by (auto simp: twoPagePdf_def)
    then show "pageTextAt twoPagePdf i = Some (twoPageTexts i)"
      by (auto simp: pageTextAt_def twoPagePdf_def twoPageTexts_def pageText_def lit_def)
  qed
  have h2: "type exampleFile = pdfMediaType"
    by (simp add: exampleFile_def pdfMediaType_def)
  have h3: "servingEngine twoPagePdf [] = Resolved twoPagePdf"
    by (simp add: servingEngine_def)
  have n: "[1..<Suc (numPages twoPagePdf)] = [1, 2]"
    by (simp add: twoPagePdf_def upt_conv_Cons)
  have c: "concat (map (\<lambda>i. twoPageTexts i @ paragraphSeparator) [1, 2])
             = lit ''Hola mundo'' @ paragraphSeparator @ lit ''fin'' @ paragraphSeparator"
    by (simp add: twoPageTexts_def)
  have p: "pageTextAt twoPagePdf 1 = Some (lit ''Hola mundo'')"
    "pageTextAt twoPagePdf 2 = Some (lit ''fin'')"
    by (simp_all add: pageTextAt_def twoPagePdf_def pageText_def lit_def)
  from extracted_text [where t = twoPageTexts and s = initialState
        and getDocument = "servingEngine twoPagePdf" and typedArray = "[]", OF h1 h2 h3] p
  show ?thesis unfolding n c by simp
qed

text \<open>
  C2 as stated fails on a PDF of one page with the text \<open>"a"\<close>: joining the page
  texts with the separator gives \<open>"a"\<close>, the code extracts \<open>"a"\<close> followed by a
  double newline.
\<close>

theorem trailing_separator:
  "pageTextAt onePagePdf 1 = Some (lit ''a'')
   \<and> extractPages onePagePdf 1 [] = Resolved (lit ''a'' @ paragraphSeparator)
   \<and> extractPages onePagePdf 1 [] \<noteq> Resolved (join paragraphSeparator [lit ''a''])"
  by (simp add: extractPages.simps onePagePdf_def pageText_def pageTextAt_def
      paragraphSeparator_def lit_def)

text \<open>
  C4. After an accepted upload whose read, parse and page extraction all succeed, the
  transcript is exactly one BOT message with the fixed acknowledgment text, the
  conversation context is present and the processing flag is false.
\<close>

theorem ingestion_success:
  fixes s :: app_state
  assumes "accepted file" and "ingestionSucceeds getDocument rd"
  defines "s' \<equiv> finalState s (handleFileUpload getDocument rd file s)"
  shows "messages s'
           = [\<lparr>sender = BOT,
               text = lit ''Documento analizado. Ya puedes hacer preguntas sobre su contenido.''\<rparr>]
         \<and> chat s' \<noteq> None \<and> \<not> isProcessing s'"
proof -
  from assms(1) obtain f where f: "file = Some f" "type f = pdfMediaType"
    by (auto simp: accepted_def split: option.splits)
  from assms(2) obtain typedArray pdf fullText where
    r: "rd = LoadFired (Some typedArray)" "getDocument typedArray = Resolved pdf"
       "extractPages pdf 1 [] = Resolved fullText"
    by (auto simp: ingestionSucceeds_def split: read_outcome.splits option.splits promise.splits)
  show ?thesis
    unfolding s'_def f r(1)
      upload_success_trace [where getDocument = getDocument and typedArray = typedArray,
        OF f(2) r(2,3)]
    by (simp add: finalState_def initialBotMessage_def)
qed

text \<open>The two-page PDF uploaded into the initial state.\<close>

theorem ingestion_success_two_pages:
  "accepted (Some exampleFile) \<and> ingestionSucceeds (servingEngine twoPagePdf) (LoadFired (Some []))
   \<and> messages (finalState initialState
        (handleFileUpload (servingEngine twoPagePdf) (LoadFired (Some [])) (Some exampleFile)
           initialState))
       = [\<lparr>sender = BOT,
           text = lit ''Documento analizado. Ya puedes hacer preguntas sobre su contenido.''\<rparr>]
   \<and> chat (finalState initialState
        (handleFileUpload (servingEngine twoPagePdf) (LoadFired (Some [])) (Some exampleFile)
           initialState)) \<noteq> None
   \<and> \<not> isProcessing (finalState initialState
        (handleFileUpload (servingEngine twoPagePdf) (LoadFired (Some [])) (Some exampleFile)
           initialState))"
proof -
  have h1: "accepted (Some exampleFile)"
    by (simp add: accepted_def exampleFile_def pdfMediaType_def)
  have h2: "ingestionSucceeds (servingEngine twoPagePdf) (LoadFired (Some []))"
    by (simp add: ingestionSucceeds_def servingEngine_def extractPages.simps twoPagePdf_def)
  from ingestion_success [OF h1 h2, of initialState] h1 h2 show ?thesis by simp
qed

text \<open>
  C7. For a file whose declared media type is not \<open>application/pdf\<close>, the upload
  commits a single state that differs from the prior one in the error field only, which
  holds the invalid-file message: document name, context, transcript, processing flag
  and replying flag are unchanged.
\<close>

theorem non_pdf_upload:
  assumes "type f \<noteq> lit ''application/pdf''"
  shows "handleFileUpload getDocument rd (Some f) s = [s\<lparr>error := Some invalidFileMessage\<rparr>]"
  using assms by (simp add: handleFileUpload_def pdfMediaType_def)

text \<open>A text file uploaded after a successful ingestion.\<close>

theorem non_pdf_upload_text_file:
  "type textFile \<noteq> lit ''application/pdf''
   \<and> handleFileUpload (servingEngine twoPagePdf) (LoadFired (Some [])) (Some textFile) readyState
       = [readyState\<lparr>error := Some invalidFileMessage\<rparr>]"
proof -
  have h: "type textFile \<noteq> lit ''application/pdf''"
    by (simp add: textFile_def lit_def)
  from non_pdf_upload [OF h, of "servingEngine twoPagePdf" "LoadFired (Some [])" readyState] h
  show ?thesis by simp
qed

text \<open>
  C1 (amended). For the ingestion failures that the handler catches, namely the reader
  throwing synchronously and the load event carrying no result, the accepted upload
  ends with the error field set to the corresponding message (processing failure,
  read failure), the processing flag false, the context absent and the transcript
  empty; the document name stays set to the name of the uploaded file.
\<close>

theorem handled_ingestion_failures:
  fixes s :: app_state and getDocument :: "8 word list \<Rightarrow> PDFDocument promise"
  assumes "type f = pdfMediaType" and "rd = ReaderThrows \<or> rd = LoadFired None"
  defines "s' \<equiv> finalState s (handleFileUpload getDocument rd (Some f) s)"
  shows "error s' = Some (if rd = ReaderThrows then processingFailureMessage
                          else readFailureMessage)
         \<and> \<not> isProcessing s' \<and> chat s' = None \<and> messages s' = []
         \<and> pdfName s' = Some (name f)"
  using assms(1,2)
  by (auto simp: s'_def handleFileUpload_def onload_def finalState_def resetState_def Let_def)

text \<open>The load event without a result, from the initial state.\<close>

theorem handled_ingestion_failures_example:
  "type exampleFile = pdfMediaType
   \<and> error readFailedState = Some readFailureMessage
   \<and> \<not> isProcessing readFailedState \<and> chat readFailedState = None
   \<and> messages readFailedState = [] \<and> pdfName readFailedState = Some (lit ''bases.pdf'')"
proof -
  have h1: "type exampleFile = pdfMediaType"
    by (simp add: exampleFile_def pdfMediaType_def)
  have h2: "LoadFired None = ReaderThrows \<or> LoadFired None = LoadFired None"
    by simp
  have n: "name exampleFile = lit ''bases.pdf''"
    by (simp add: exampleFile_def)
  from handled_ingestion_failures [OF h1 h2, of initialState rejectingEngine] h1
  show ?thesis unfolding readFailedState_def n by simp
qed

text \<open>
  C1 as stated fails: after the load event without a result the document name is still
  present; and when the parser rejects the bytes, the rejection leaves the \<open>async\<close>
  callback outside the \<open>try\<close> statement, so that the processing flag stays true and
  no error is set.
\<close>

theorem ingestion_failure_leftovers:
  "pdfName readFailedState = Some (lit ''bases.pdf'')
   \<and> isProcessing parseFailedState \<and> error parseFailedState = None
   \<and> pdfName parseFailedState = Some (lit ''bases.pdf'')"
  by (simp add: readFailedState_def parseFailedState_def handleFileUpload_def onload_def
      finalState_def resetState_def initialState_def exampleFile_def pdfMediaType_def
      rejectingEngine_def Let_def)


section \<open>The invariant of the reachable states\<close>









end
